theory Spec2Isabelle
  imports Complex_Main
begin

section \<open>Data model of \<^verbatim>\<open>src/markdown/from_markdown.js\<close>\<close>

subsection \<open>JavaScript values\<close>

text \<open>
  Token attributes and node attributes hold JavaScript primitives. A number is a double:
  NaN, an infinity, or a finite value, which is a rational (the two zeros are one value
  here; both are falsy). The conversion of a string to a number (\<^verbatim>\<open>Number(s)\<close>) rounds
  to a double and is a builtin of the language, not code of the repository: it is a
  parameter \<open>StringToNumber\<close> of every definition that needs it.
\<close>

datatype jsnum = NaN | PosInfinity | NegInfinity | Finite rat

datatype jsval = JUndefined | JNull | JBool bool | JNum jsnum | JStr string

text \<open>An object literal such as \<^verbatim>\<open>{order: 1}\<close>: its properties in order.\<close>

type_synonym attrs = "(string \<times> jsval) list"

text \<open>ToBoolean: what \<^verbatim>\<open>x || y\<close> and \<^verbatim>\<open>x && y\<close> test.\<close>

fun truthy :: "jsval \<Rightarrow> bool" where
  "truthy JUndefined = False"
| "truthy JNull = False"
| "truthy (JBool b) = b"
| "truthy (JNum n) = (n \<noteq> NaN \<and> n \<noteq> Finite 0)"
| "truthy (JStr s) = (s \<noteq> [])"

text \<open>\<^verbatim>\<open>x || y\<close> on values.\<close>

definition js_or :: "jsval \<Rightarrow> jsval \<Rightarrow> jsval" where
  "js_or x y = (if truthy x then x else y)"

text \<open>\<^verbatim>\<open>Number(x)\<close>, the language's ToNumber.\<close>

fun Number :: "(string \<Rightarrow> jsnum) \<Rightarrow> jsval \<Rightarrow> jsnum" where
  "Number StringToNumber JUndefined = NaN"
| "Number StringToNumber JNull = Finite 0"
| "Number StringToNumber (JBool b) = (if b then Finite 1 else Finite 0)"
| "Number StringToNumber (JNum n) = n"
| "Number StringToNumber (JStr s) = StringToNumber s"

subsection \<open>Marks, nodes, tokens\<close>

text \<open>
  Node types and mark types are objects of the schema, compared by identity; the model
  names each by a string. A mark is a mark type with its attributes.
\<close>

datatype mark = Mark (mark_type: string) (mark_attrs: "attrs option")

text \<open>
  A node of the document: an element built by the schema's factory, or a text run.
  \<open>is_text\<close>, \<open>node_text\<close>, \<open>node_marks\<close> and \<open>copy\<close> are the members \<^verbatim>\<open>isText\<close>,
  \<^verbatim>\<open>text\<close>, \<^verbatim>\<open>marks\<close> and \<^verbatim>\<open>copy\<close> that \<^verbatim>\<open>maybeMerge\<close> uses.
\<close>

datatype node =
    Node (node_type: string) (node_attrs: "attrs option") (node_content: "node list")
      (node_marks: "mark list")
  | Text (node_text: string) (node_marks: "mark list")

fun is_text :: "node \<Rightarrow> bool" where
  "is_text (Text s ms) = True"
| "is_text (Node ty a c ms) = False"

text \<open>
  Modelled from the spec: \<^verbatim>\<open>Node.copy\<close> of \<^verbatim>\<open>../model\<close> is not among the sources. On a
  text run it gives a text run of the same marks with the new text, which is how
  \<^verbatim>\<open>maybeMerge\<close> concatenates ("the new text is concatenated onto that existing run").
  \<^verbatim>\<open>maybeMerge\<close> calls it on text runs only.
\<close>

fun copy :: "node \<Rightarrow> string \<Rightarrow> node" where
  "copy (Text s ms) s' = Text s' ms"
| "copy (Node ty a c ms) s' = Node ty a c ms"

text \<open>
  A token of the tokenizer: type name, attribute pairs (or null), literal content,
  children (or null), tag and markup.
\<close>

datatype token =
  Token (tok_type: string) (tok_attrs: "(string \<times> jsval) list option") (tok_content: string)
    (tok_children: "token list option") (tok_tag: string) (tok_markup: string)

subsection \<open>Schema, frames, parse state\<close>

text \<open>
  What the parser calls of the schema: the document node type \<^verbatim>\<open>schema.nodes.doc\<close> and
  the node factory \<^verbatim>\<open>type.createAutoFill(attrs, content, marks)\<close>, which is code of
  \<^verbatim>\<open>../model\<close> and stays a parameter: the theorems hold for every factory. An omitted
  argument (\<^verbatim>\<open>undefined\<close>) is \<open>None\<close>.
\<close>

record schema =
  nodes_doc :: string
  createAutoFill :: "string \<Rightarrow> attrs option \<Rightarrow> node list option \<Rightarrow> mark list \<Rightarrow> node"

text \<open>
  Modelled from the spec: \<^verbatim>\<open>schema.text(text, marks)\<close> of \<^verbatim>\<open>../model\<close> is not among the
  sources; it makes "a text run styled with the current Mark Set".
\<close>

definition schema_text :: "schema \<Rightarrow> string \<Rightarrow> mark list \<Rightarrow> node" where
  "schema_text sch s ms = Text s ms"

text \<open>A frame of the stack: \<^verbatim>\<open>{type, attrs, content}\<close>.\<close>

record frame =
  ftype :: string
  fattrs :: "attrs option"
  fcontent :: "node list"

text \<open>
  The fields of \<^verbatim>\<open>MarkdownParseState\<close>. The stack is listed top first: \<^verbatim>\<open>stack.push\<close> is
  \<open>#\<close>, \<^verbatim>\<open>stack.pop\<close> takes the head, \<^verbatim>\<open>top()\<close> is the head. The content of a frame
  is in document order. \<open>state_tokens\<close> is the field \<^verbatim>\<open>tokens\<close>, which is stored and
  never read again. The field \<^verbatim>\<open>tokenTypes\<close> is the registry; its handlers are
  functions of the state, so the registry is passed beside the state, not inside it.
\<close>

record pstate =
  schema :: schema
  stack :: "frame list"
  state_tokens :: "token list"
  marks :: "mark list"

datatype error = Error string | TypeError | AssertionError string

subsection \<open>Mark sets\<close>

text \<open>The constant \<^verbatim>\<open>noMarks\<close> of line 61.\<close>

definition noMarks :: "mark list" where
  "noMarks = []"

text \<open>
  Modelled from the spec: \<^verbatim>\<open>type.create(attrs)\<close> of a mark type, code of \<^verbatim>\<open>../model\<close>, is not
  among the sources. Section 6: "a mark-construction factory taking (type, attrs) and
  returning a Mark value".
\<close>

definition create :: "string \<Rightarrow> attrs option \<Rightarrow> mark" where
  "create ty a = Mark ty a"

text \<open>
  Modelled from the spec: \<^verbatim>\<open>mark.addToSet\<close> of \<^verbatim>\<open>../model\<close> is not among the sources.
  Section 4.3: add "returns a new set with mark inserted (replacing any existing entry of
  identical type+attributes, no-op if already present)"; "new marks are appended,
  preserving existing relative order of previously active marks".
\<close>

definition addToSet :: "mark \<Rightarrow> mark list \<Rightarrow> mark list" where
  "addToSet m ms = (if m \<in> set ms then ms else ms @ [m])"

text \<open>
  Modelled from the spec: \<^verbatim>\<open>type.removeFromSet\<close> of \<^verbatim>\<open>../model\<close> is not among the sources.
  Section 4.3: remove "returns a new set with any entry of that mark type removed,
  regardless of attributes; absent-case is a no-op".
\<close>

definition removeFromSet :: "string \<Rightarrow> mark list \<Rightarrow> mark list" where
  "removeFromSet ty ms = filter (\<lambda>m. mark_type m \<noteq> ty) ms"

text \<open>
  Modelled from the spec: \<^verbatim>\<open>Mark.sameSet\<close> of \<^verbatim>\<open>../model\<close> is not among the sources.
  Section 4.3: "two sets are equal iff they contain the same marks (by type+attribute
  identity) regardless of order".
\<close>

definition sameSet :: "mark list \<Rightarrow> mark list \<Rightarrow> bool" where
  "sameSet a b = (set a = set b)"

section \<open>The tree builder\<close>

text \<open>\<^verbatim>\<open>maybeMerge\<close> returns the merged run, or \<^verbatim>\<open>undefined\<close> (\<open>None\<close>).\<close>

definition maybeMerge :: "node \<Rightarrow> node \<Rightarrow> node option" where
  "maybeMerge a b =
     (if is_text a \<and> is_text b \<and> sameSet (node_marks a) (node_marks b)
      then Some (copy a (node_text a @ node_text b)) else None)"

text \<open>\<^verbatim>\<open>push\<close>: append to the top frame's content, when there is a frame.\<close>

fun push :: "pstate \<Rightarrow> node \<Rightarrow> pstate" where
  "push st elt =
     (case stack st of
        [] \<Rightarrow> st
      | f # fs \<Rightarrow> st\<lparr>stack := f\<lparr>fcontent := fcontent f @ [elt]\<rparr> # fs\<rparr>)"

text \<open>
  \<^verbatim>\<open>addText\<close>. On an empty stack \<^verbatim>\<open>this.top()\<close> is \<^verbatim>\<open>undefined\<close> and reading its
  \<^verbatim>\<open>content\<close> throws a TypeError. \<^verbatim>\<open>last\<close> is \<^verbatim>\<open>undefined\<close> when the content is empty.
\<close>

fun addText :: "pstate \<Rightarrow> string \<Rightarrow> error + pstate" where
  "addText st s =
     (case stack st of
        [] \<Rightarrow> Inl TypeError
      | f # fs \<Rightarrow>
          (let nodes = fcontent f;
               node = schema_text (schema st) s (marks st)
           in if nodes = [] then Inr (st\<lparr>stack := f\<lparr>fcontent := nodes @ [node]\<rparr> # fs\<rparr>)
              else (case maybeMerge (last nodes) node of
                      Some merged \<Rightarrow>
                        Inr (st\<lparr>stack := f\<lparr>fcontent := butlast nodes @ [merged]\<rparr> # fs\<rparr>)
                    | None \<Rightarrow> Inr (st\<lparr>stack := f\<lparr>fcontent := nodes @ [node]\<rparr> # fs\<rparr>))))"

definition openMark :: "pstate \<Rightarrow> mark \<Rightarrow> pstate" where
  "openMark st m = st\<lparr>marks := addToSet m (marks st)\<rparr>"

text \<open>\<^verbatim>\<open>closeMark\<close> is always called with a mark type (lines 171 and 254).\<close>

definition closeMark :: "pstate \<Rightarrow> string \<Rightarrow> pstate" where
  "closeMark st ty = st\<lparr>marks := removeFromSet ty (marks st)\<rparr>"

text \<open>\<^verbatim>\<open>addNode\<close> returns the node and the state after the push.\<close>

definition addNode ::
  "pstate \<Rightarrow> string \<Rightarrow> attrs option \<Rightarrow> node list option \<Rightarrow> node \<times> pstate" where
  "addNode st ty a content =
     (let node = createAutoFill (schema st) ty a content (marks st)
      in (node, push st node))"

definition openNode :: "pstate \<Rightarrow> string \<Rightarrow> attrs option \<Rightarrow> pstate" where
  "openNode st ty a = st\<lparr>stack := \<lparr>ftype = ty, fattrs = a, fcontent = []\<rparr> # stack st\<rparr>"

text \<open>
  \<^verbatim>\<open>closeNode\<close>: the marks are reset first, then the frame is popped and the node is
  built. On an empty stack \<^verbatim>\<open>pop\<close> gives \<^verbatim>\<open>undefined\<close> and \<^verbatim>\<open>info.type\<close> throws.
\<close>

definition closeNode :: "pstate \<Rightarrow> error + (node \<times> pstate)" where
  "closeNode st =
     (let st1 = (if marks st \<noteq> [] then st\<lparr>marks := noMarks\<rparr> else st)
      in case stack st1 of
           [] \<Rightarrow> Inl TypeError
         | info # rest \<Rightarrow>
             Inr (addNode (st1\<lparr>stack := rest\<rparr>) (ftype info) (fattrs info) (Some (fcontent info))))"

text \<open>\<^verbatim>\<open>getAttr\<close>: the first pair of that name, \<^verbatim>\<open>undefined\<close> when there is none.\<close>

fun getAttr_loop :: "(string \<times> jsval) list \<Rightarrow> string \<Rightarrow> jsval" where
  "getAttr_loop [] name = JUndefined"
| "getAttr_loop (p # ps) name = (if fst p = name then snd p else getAttr_loop ps name)"

definition getAttr :: "token \<Rightarrow> string \<Rightarrow> jsval" where
  "getAttr tok name =
     (case tok_attrs tok of None \<Rightarrow> JUndefined | Some ps \<Rightarrow> getAttr_loop ps name)"

section \<open>The token type registry\<close>

text \<open>
  A parse declaration \<^verbatim>\<open>{token, parse, attrs}\<close> (the interface \<^verbatim>\<open>MarkdownParseSpec\<close>,
  lines 21 to 57). \<^verbatim>\<open>parse\<close> is documented as a string or a function, and may be
  missing; the function is called with \<^verbatim>\<open>this\<close> bound to the owning type, which is its
  first argument here. \<^verbatim>\<open>attrs\<close> is a value (\<open>None\<close> when the property is missing) or a
  function of the state and the token.
\<close>

datatype parse =
    ParseString string
  | ParseFunction "string \<Rightarrow> pstate \<Rightarrow> token \<Rightarrow> error + pstate"
  | ParseUndefined

datatype attrs_spec =
    AttrsValue "attrs option"
  | AttrsFunction "pstate \<Rightarrow> token \<Rightarrow> attrs option"

record info =
  token :: string
  parse :: parse
  attrs :: attrs_spec

text \<open>
  The closures that the registry stores, one constructor for each function expression of
  \<^verbatim>\<open>summarizeTokens\<close> and \<^verbatim>\<open>registerTokens\<close>, holding the variables it captures:
  lines 181, 182, 183, 161, 165, 167, 171 and 173.
\<close>

datatype handler =
    TextHandler
  | InlineHandler
  | SoftbreakHandler
  | BlockOpen string attrs_spec
  | BlockClose
  | MarkOpen string attrs_spec
  | MarkClose string
  | Bound "pstate \<Rightarrow> token \<Rightarrow> error + pstate"

type_synonym registry = "string \<rightharpoonup> handler"

text \<open>
  \<^verbatim>\<open>registerTokens\<close>. The tests are those of the source, in its order: equal to
  \<^verbatim>\<open>"block"\<close>, equal to \<^verbatim>\<open>"mark"\<close>, truthy, else the assertion. A truthy \<^verbatim>\<open>parse\<close> that
  is not a function is a non-empty string, which has no \<^verbatim>\<open>bind\<close>: the call throws a
  TypeError. \<^verbatim>\<open>AssertionError.raise\<close> of \<^verbatim>\<open>../util/error\<close> throws an AssertionError
  with the given message, which concatenates the object \<^verbatim>\<open>info\<close>, converted to
  \<^verbatim>\<open>[object Object]\<close>.
\<close>

definition registerTokens :: "registry \<Rightarrow> string \<Rightarrow> info \<Rightarrow> error + registry" where
  "registerTokens tokens ty info =
     (case parse info of
        ParseString s \<Rightarrow>
          (if s = ''block'' then
             Inr (tokens(token info @ ''_open'' \<mapsto> BlockOpen ty (attrs info),
                         token info @ ''_close'' \<mapsto> BlockClose))
           else if s = ''mark'' then
             Inr (tokens(token info @ ''_open'' \<mapsto> MarkOpen ty (attrs info),
                         token info @ ''_close'' \<mapsto> MarkClose ty))
           else if s \<noteq> [] then Inl TypeError
           else Inl (AssertionError ''Unrecognized markdown parsing spec: [object Object]''))
      | ParseFunction f \<Rightarrow> Inr (tokens(token info \<mapsto> Bound (f ty)))
      | ParseUndefined \<Rightarrow>
          Inl (AssertionError ''Unrecognized markdown parsing spec: [object Object]''))"

text \<open>
  Modelled from the spec: \<^verbatim>\<open>schema.registry\<close> of \<^verbatim>\<open>../model\<close> is not among the sources.
  \<^verbatim>\<open>schema.registry("parseMarkdown", f)\<close> calls \<open>f\<close> on every declaration registered on a
  type of the schema, with that type (section 2: "querying every node/mark type for its
  parsing declarations"). The declarations live on the types, outside the parse state;
  the model takes them as the list of pairs \<open>(info, type)\<close> in the order of the calls. An
  exception of one call ends the enumeration.
\<close>

fun registry_loop :: "registry \<Rightarrow> (info \<times> string) list \<Rightarrow> error + registry" where
  "registry_loop tokens [] = Inr tokens"
| "registry_loop tokens (d # ds) =
     (case registerTokens tokens (snd d) (fst d) of
        Inl e \<Rightarrow> Inl e
      | Inr tokens' \<Rightarrow> registry_loop tokens' ds)"

definition summarizeTokens :: "(info \<times> string) list \<Rightarrow> error + registry" where
  "summarizeTokens parseMarkdown =
     registry_loop
       (Map.empty(''text'' \<mapsto> TextHandler, ''inline'' \<mapsto> InlineHandler,
                  ''softbreak'' \<mapsto> SoftbreakHandler))
       parseMarkdown"

text \<open>
  \<^verbatim>\<open>tokenTypeInfo\<close>: the registry cached on the schema, or a new one, which is then
  cached. The argument \<open>cached\<close> is \<^verbatim>\<open>schema.cached.markdownTokens\<close>; the result holds its
  new value.
\<close>

definition tokenTypeInfo ::
  "registry option \<Rightarrow> (info \<times> string) list \<Rightarrow> error + (registry \<times> registry option)" where
  "tokenTypeInfo cached parseMarkdown =
     (case cached of
        Some tokens \<Rightarrow> Inr (tokens, cached)
      | None \<Rightarrow>
          (case summarizeTokens parseMarkdown of
             Inl e \<Rightarrow> Inl e
           | Inr tokens \<Rightarrow> Inr (tokens, Some tokens)))"

section \<open>Consuming tokens\<close>

text \<open>The attributes of an opening token: \<^verbatim>\<open>info.attrs\<close>, called when it is a function.\<close>

fun eval_attrs :: "attrs_spec \<Rightarrow> pstate \<Rightarrow> token \<Rightarrow> attrs option" where
  "eval_attrs (AttrsValue a) st tok = a"
| "eval_attrs (AttrsFunction f) st tok = f st tok"

text \<open>
  \<^verbatim>\<open>parseTokens\<close>, and \<open>call\<close>, the application \<^verbatim>\<open>tokenType(this, tok)\<close> of a stored
  closure. An exception ends the loop. The message of the error is the one of line 118.
  The handler of \<^verbatim>\<open>inline\<close> reads \<^verbatim>\<open>toks.length\<close> of the children, which throws when
  they are \<^verbatim>\<open>null\<close>.
\<close>

definition unsupported :: "string \<Rightarrow> error" where
  "unsupported ty = Error (''Token type `'' @ ty @ ''` not supported by Markdown parser'')"

fun parseTokens :: "registry \<Rightarrow> token list \<Rightarrow> pstate \<Rightarrow> error + pstate"
  and call :: "registry \<Rightarrow> handler \<Rightarrow> pstate \<Rightarrow> token \<Rightarrow> error + pstate" where
  "parseTokens reg [] st = Inr st"
| "parseTokens reg (tok # toks) st =
     (case reg (tok_type tok) of
        None \<Rightarrow> Inl (unsupported (tok_type tok))
      | Some tokenType \<Rightarrow>
          (case call reg tokenType st tok of
             Inl e \<Rightarrow> Inl e
           | Inr st' \<Rightarrow> parseTokens reg toks st'))"
| "call reg TextHandler st tok = addText st (tok_content tok)"
| "call reg InlineHandler st (Token ty a c children tg mk) =
     (case children of
        None \<Rightarrow> Inl TypeError
      | Some toks \<Rightarrow> parseTokens reg toks st)"
| "call reg SoftbreakHandler st tok = addText st [CHR 0x0A]"
| "call reg (BlockOpen ty a) st tok = Inr (openNode st ty (eval_attrs a st tok))"
| "call reg BlockClose st tok =
     (case closeNode st of Inl e \<Rightarrow> Inl e | Inr r \<Rightarrow> Inr (snd r))"
| "call reg (MarkOpen ty a) st tok = Inr (openMark st (create ty (eval_attrs a st tok)))"
| "call reg (MarkClose ty) st tok = Inr (closeMark st ty)"
| "call reg (Bound f) st tok = f st tok"

section \<open>The driver\<close>

text \<open>
  The loop \<^verbatim>\<open>do { doc = state.closeNode() } while (state.stack.length)\<close> of
  \<^verbatim>\<open>fromMarkdown\<close>. Every round pops a frame, so the length of the stack bounds the
  rounds.
\<close>

function close_loop :: "pstate \<Rightarrow> error + node" where
  "close_loop st =
     (case closeNode st of
        Inl e \<Rightarrow> Inl e
      | Inr (doc, st') \<Rightarrow> (if stack st' \<noteq> [] then close_loop st' else Inr doc))"
  by pat_completeness auto
termination
  by (relation "measure (\<lambda>st. length (stack st))")
    (auto simp: closeNode_def addNode_def Let_def split: list.splits if_splits)

declare close_loop.simps [simp del]

text \<open>
  \<^verbatim>\<open>new MarkdownParseState(schema, tokens)\<close>: one root frame of the document type, no
  marks, and the registry of the schema, whose construction may throw.
\<close>

definition MarkdownParseState ::
  "schema \<Rightarrow> registry option \<Rightarrow> (info \<times> string) list \<Rightarrow> token list
     \<Rightarrow> error + (pstate \<times> registry)" where
  "MarkdownParseState sch cached parseMarkdown toks =
     (case tokenTypeInfo cached parseMarkdown of
        Inl e \<Rightarrow> Inl e
      | Inr (tokenTypes, cached') \<Rightarrow>
          Inr (\<lparr>schema = sch,
                stack = [\<lparr>ftype = nodes_doc sch, fattrs = None, fcontent = []\<rparr>],
                state_tokens = toks, marks = noMarks\<rparr>, tokenTypes))"

text \<open>
  \<^verbatim>\<open>fromMarkdown\<close>, from the tokens on: the tokenizer \<^verbatim>\<open>markdownit\<close> is another package,
  and the model takes its result. The schema of the source is here the triple of the
  factory record, the cached registry and the declarations registered on its types.
\<close>

definition fromMarkdown ::
  "schema \<Rightarrow> registry option \<Rightarrow> (info \<times> string) list \<Rightarrow> token list \<Rightarrow> error + node" where
  "fromMarkdown sch cached parseMarkdown toks =
     (case MarkdownParseState sch cached parseMarkdown toks of
        Inl e \<Rightarrow> Inl e
      | Inr (state, tokenTypes) \<Rightarrow>
          (case parseTokens tokenTypes toks state of
             Inl e \<Rightarrow> Inl e
           | Inr state' \<Rightarrow> close_loop state'))"

section \<open>The declarations of the module\<close>

text \<open>The \<^verbatim>\<open>attrs\<close> functions of lines 199 to 205 and 245 to 248.\<close>

definition OrderedList_attrs :: "(string \<Rightarrow> jsnum) \<Rightarrow> pstate \<Rightarrow> token \<Rightarrow> attrs option" where
  "OrderedList_attrs StringToNumber st tok =
     Some [(''order'',
            JNum (Number StringToNumber (js_or (getAttr tok ''order'') (JNum (Finite 1)))))]"

definition Heading_attrs :: "pstate \<Rightarrow> token \<Rightarrow> attrs option" where
  "Heading_attrs st tok = Some [(''level'', JStr (drop 1 (tok_tag tok)))]"

definition LinkMark_attrs :: "pstate \<Rightarrow> token \<Rightarrow> attrs option" where
  "LinkMark_attrs st tok =
     Some [(''href'', getAttr tok ''href''),
           (''title'', js_or (getAttr tok ''title'') JNull)]"

text \<open>
  \<^verbatim>\<open>trimTrailingNewline\<close>: \<^verbatim>\<open>charAt(length - 1)\<close> of the empty string is the empty string,
  which is not a newline.
\<close>

definition trimTrailingNewline :: "string \<Rightarrow> string" where
  "trimTrailingNewline str =
     (if str \<noteq> [] \<and> last str = CHR 0x0A then take (length str - 1) str else str)"

text \<open>The parse functions, with \<^verbatim>\<open>this\<close> as first argument.\<close>

definition parseCodeBlock :: "string \<Rightarrow> pstate \<Rightarrow> token \<Rightarrow> error + pstate" where
  "parseCodeBlock this st tok =
     (case addText (openNode st this None) (trimTrailingNewline (tok_content tok)) of
        Inl e \<Rightarrow> Inl e
      | Inr st' \<Rightarrow> (case closeNode st' of Inl e \<Rightarrow> Inl e | Inr r \<Rightarrow> Inr (snd r)))"

definition parse_hr :: "string \<Rightarrow> pstate \<Rightarrow> token \<Rightarrow> error + pstate" where
  "parse_hr this st tok =
     Inr (snd (addNode st this (Some [(''markup'', JStr (tok_markup tok))]) None))"

text \<open>
  The image: \<^verbatim>\<open>tok.children[0]\<close> throws when the children are \<^verbatim>\<open>null\<close>; the \<^verbatim>\<open>alt\<close> is
  the content of the first child when there is one and its content is not empty.
\<close>

definition parse_image :: "string \<Rightarrow> pstate \<Rightarrow> token \<Rightarrow> error + pstate" where
  "parse_image this st tok =
     (case tok_children tok of
        None \<Rightarrow> Inl TypeError
      | Some children \<Rightarrow>
          Inr (snd (addNode st this
            (Some [(''src'', getAttr tok ''src''),
                   (''title'', js_or (getAttr tok ''title'') JNull),
                   (''alt'', (case children of
                                [] \<Rightarrow> JNull
                              | c # cs \<Rightarrow> js_or (JStr (tok_content c)) JNull))])
            None)))"

definition parse_hardbreak :: "string \<Rightarrow> pstate \<Rightarrow> token \<Rightarrow> error + pstate" where
  "parse_hardbreak this st tok = Inr (snd (addNode st this None None))"

definition parse_code_inline :: "string \<Rightarrow> pstate \<Rightarrow> token \<Rightarrow> error + pstate" where
  "parse_code_inline this st tok =
     (case addText (openMark st (create this None)) (tok_content tok) of
        Inl e \<Rightarrow> Inl e
      | Inr st' \<Rightarrow> Inr (closeMark st' this))"

text \<open>
  The calls \<^verbatim>\<open>T.register("parseMarkdown", info)\<close> of lines 191 to 255, each with the
  class it is made on, in the order of the file.
\<close>

definition parseMarkdown_declarations :: "(string \<Rightarrow> jsnum) \<Rightarrow> (info \<times> string) list" where
  "parseMarkdown_declarations StringToNumber =
     [(\<lparr>token = ''blockquote'', parse = ParseString ''block'', attrs = AttrsValue None\<rparr>,
         ''BlockQuote''),
      (\<lparr>token = ''paragraph'', parse = ParseString ''block'', attrs = AttrsValue None\<rparr>,
         ''Paragraph''),
      (\<lparr>token = ''list_item'', parse = ParseString ''block'', attrs = AttrsValue None\<rparr>,
         ''ListItem''),
      (\<lparr>token = ''bullet_list'', parse = ParseString ''block'', attrs = AttrsValue None\<rparr>,
         ''BulletList''),
      (\<lparr>token = ''ordered_list'', parse = ParseString ''block'',
          attrs = AttrsFunction (OrderedList_attrs StringToNumber)\<rparr>, ''OrderedList''),
      (\<lparr>token = ''heading'', parse = ParseString ''block'',
          attrs = AttrsFunction Heading_attrs\<rparr>, ''Heading''),
      (\<lparr>token = ''code_block'', parse = ParseFunction parseCodeBlock,
          attrs = AttrsValue None\<rparr>, ''CodeBlock''),
      (\<lparr>token = ''fence'', parse = ParseFunction parseCodeBlock, attrs = AttrsValue None\<rparr>,
         ''CodeBlock''),
      (\<lparr>token = ''hr'', parse = ParseFunction parse_hr, attrs = AttrsValue None\<rparr>,
         ''HorizontalRule''),
      (\<lparr>token = ''image'', parse = ParseFunction parse_image, attrs = AttrsValue None\<rparr>,
         ''Image''),
      (\<lparr>token = ''hardbreak'', parse = ParseFunction parse_hardbreak,
          attrs = AttrsValue None\<rparr>, ''HardBreak''),
      (\<lparr>token = ''em'', parse = ParseString ''mark'', attrs = AttrsValue None\<rparr>, ''EmMark''),
      (\<lparr>token = ''strong'', parse = ParseString ''mark'', attrs = AttrsValue None\<rparr>,
         ''StrongMark''),
      (\<lparr>token = ''link'', parse = ParseString ''mark'', attrs = AttrsFunction LinkMark_attrs\<rparr>,
         ''LinkMark''),
      (\<lparr>token = ''code_inline'', parse = ParseFunction parse_code_inline,
          attrs = AttrsValue None\<rparr>, ''CodeMark'')]"

section \<open>A schema to compute with\<close>

text \<open>
  A factory that records its four arguments in the node, for running the parser on
  concrete tokens. Omitted content is no content.
\<close>

definition record_schema :: schema where
  "record_schema =
     \<lparr>nodes_doc = ''doc'',
      createAutoFill = (\<lambda>ty a content ms.
        Node ty a (case content of None \<Rightarrow> [] | Some ns \<Rightarrow> ns) ms)\<rparr>"

text \<open>
  A conversion of strings for runs whose strings are no numerals, such as \<^verbatim>\<open>"abc"\<close>, on
  which \<^verbatim>\<open>Number\<close> gives NaN: it gives NaN on every string.
\<close>

definition no_numerals :: "string \<Rightarrow> jsnum" where
  "no_numerals s = NaN"

text \<open>Short forms of tokens: one without attributes, content or children, and a text.\<close>

definition tok :: "string \<Rightarrow> token" where
  "tok ty = Token ty None [] None [] []"

definition text_tok :: "string \<Rightarrow> token" where
  "text_tok s = Token ''text'' None s None [] []"

section \<open>Notions used in the statements\<close>

text \<open>
  The node of a frame that is closed: the factory applied to its type, its attributes and
  its content, with no marks.
\<close>

definition frame_node :: "schema \<Rightarrow> frame \<Rightarrow> node" where
  "frame_node sch f = createAutoFill sch (ftype f) (fattrs f) (Some (fcontent f)) []"

text \<open>
  The forced unwind in the words of the specification: the node just closed becomes the
  last child of the frame below, which is closed in turn, down to the root; the last node
  is the document. The frames are those below the closed one, top first.
\<close>

fun unwind :: "schema \<Rightarrow> node \<Rightarrow> frame list \<Rightarrow> node" where
  "unwind sch n [] = n"
| "unwind sch n (g # gs) = unwind sch (frame_node sch (g\<lparr>fcontent := fcontent g @ [n]\<rparr>)) gs"

text \<open>A state with an open paragraph and an active emphasis mark.\<close>

definition open_em_state :: pstate where
  "open_em_state =
     \<lparr>schema = record_schema,
      stack = [\<lparr>ftype = ''Paragraph'', fattrs = None, fcontent = []\<rparr>,
               \<lparr>ftype = ''doc'', fattrs = None, fcontent = []\<rparr>],
      state_tokens = [], marks = [Mark ''EmMark'' None]\<rparr>"

text \<open>The declarations of a schema with the paragraph only, and the registry they give.\<close>

definition paragraph_only :: "(info \<times> string) list" where
  "paragraph_only =
     [(\<lparr>token = ''paragraph'', parse = ParseString ''block'', attrs = AttrsValue None\<rparr>,
         ''Paragraph'')]"

definition paragraph_registry :: registry where
  "paragraph_registry =
     Map.empty(''text'' \<mapsto> TextHandler, ''inline'' \<mapsto> InlineHandler,
               ''softbreak'' \<mapsto> SoftbreakHandler,
               ''paragraph_open'' \<mapsto> BlockOpen ''Paragraph'' (AttrsValue None),
               ''paragraph_close'' \<mapsto> BlockClose)"

text \<open>
  The number of block frames open above the root frame after a list of tokens, counted
  from the handlers the registry dispatches to: an opening block token adds one, a
  closing block token takes one away, the children of an \<^verbatim>\<open>inline\<close> token are counted in
  their place, and every other handler leaves the number as it is. There is no number
  (\<open>None\<close>) when a closing token comes while no block frame is open above the root, when
  a token has no handler, or when an \<^verbatim>\<open>inline\<close> token has no children list.
\<close>

fun nesting :: "registry \<Rightarrow> token list \<Rightarrow> nat \<Rightarrow> nat option" where
  "nesting reg [] d = Some d"
| "nesting reg (Token ty a c children tg mk # toks) d =
     (case reg ty of
        None \<Rightarrow> None
      | Some InlineHandler \<Rightarrow>
          (case children of
             None \<Rightarrow> None
           | Some cs \<Rightarrow> (case nesting reg cs d of None \<Rightarrow> None | Some d' \<Rightarrow> nesting reg toks d'))
      | Some (BlockOpen ty' asp) \<Rightarrow> nesting reg toks (Suc d)
      | Some BlockClose \<Rightarrow> (case d of 0 \<Rightarrow> None | Suc d' \<Rightarrow> nesting reg toks d')
      | Some h \<Rightarrow> nesting reg toks d)"

text \<open>
  The state of a parse with the schema \<open>sch\<close> whose bottom frame is the root frame, of the
  document type and without attributes, with \<open>d\<close> frames open above it.
\<close>

definition rooted :: "schema \<Rightarrow> nat \<Rightarrow> pstate \<Rightarrow> bool" where
  "rooted sch d st =
     (schema st = sch \<and> length (stack st) = Suc d \<and>
      ftype (last (stack st)) = nodes_doc sch \<and> fattrs (last (stack st)) = None)"

text \<open>
  A parse function of a declaration keeps the root: it leaves the schema, the root frame
  at the bottom and the number of frames above it as it found them.
\<close>

definition keeps_root :: "(pstate \<Rightarrow> token \<Rightarrow> error + pstate) \<Rightarrow> bool" where
  "keeps_root h = (\<forall>sch d st t st'. rooted sch d st \<and> h st t = Inr st' \<longrightarrow> rooted sch d st')"

text \<open>
  A run of \<^verbatim>\<open>parseTokens\<close> comes to dispatch on a token: the tokens before it are
  consumed without an error, at the top level or, through any number of \<^verbatim>\<open>inline\<close>
  tokens, among the children of one.
\<close>

inductive reaches :: "registry \<Rightarrow> token list \<Rightarrow> pstate \<Rightarrow> token \<Rightarrow> bool" where
  here: "parseTokens reg pre st = Inr st' \<Longrightarrow> reaches reg (pre @ t # post) st t"
| inside: "parseTokens reg pre st = Inr st' \<Longrightarrow> reg (tok_type i) = Some InlineHandler \<Longrightarrow>
     tok_children i = Some children \<Longrightarrow> reaches reg children st' t \<Longrightarrow>
     reaches reg (pre @ i # post) st t"

text \<open>The content of a frame ends with a text run of the given Mark Set.\<close>

definition ends_with_run :: "node list \<Rightarrow> mark list \<Rightarrow> bool" where
  "ends_with_run c ms = (c \<noteq> [] \<and> is_text (last c) \<and> sameSet (node_marks (last c)) ms)"

text \<open>
  The \<^verbatim>\<open>parse\<close> values that \<^verbatim>\<open>registerTokens\<close> is written for: the string \<^verbatim>\<open>"block"\<close>, the
  string \<^verbatim>\<open>"mark"\<close>, or a function. \<open>build_error\<close> is the exception of any other value:
  the assertion of line 175 when the value is missing or the empty string, the TypeError
  of the call of \<^verbatim>\<open>bind\<close> on any other string.
\<close>

definition recognized :: "parse \<Rightarrow> bool" where
  "recognized p =
     (case p of
        ParseString s \<Rightarrow> s = ''block'' \<or> s = ''mark''
      | ParseFunction f \<Rightarrow> True
      | ParseUndefined \<Rightarrow> False)"

definition build_error :: "parse \<Rightarrow> error" where
  "build_error p =
     (if p = ParseUndefined \<or> p = ParseString []
      then AssertionError ''Unrecognized markdown parsing spec: [object Object]''
      else TypeError)"

text \<open>Declarations and states to run the statements on.\<close>

definition unrecognized_declarations :: "(info \<times> string) list" where
  "unrecognized_declarations =
     [(\<lparr>token = ''paragraph'', parse = ParseString ''block'', attrs = AttrsValue None\<rparr>,
         ''Paragraph''),
      (\<lparr>token = ''note'', parse = ParseString ''inline'', attrs = AttrsValue None\<rparr>, ''Note'')]"

definition missing_parse_declarations :: "(info \<times> string) list" where
  "missing_parse_declarations =
     [(\<lparr>token = ''note'', parse = ParseUndefined, attrs = AttrsValue None\<rparr>, ''Note'')]"

definition heading_info :: info where
  "heading_info =
     \<lparr>token = ''heading'', parse = ParseString ''block'', attrs = AttrsFunction Heading_attrs\<rparr>"

definition link_info :: info where
  "link_info =
     \<lparr>token = ''link'', parse = ParseString ''mark'', attrs = AttrsFunction LinkMark_attrs\<rparr>"

definition link_em_state :: pstate where
  "link_em_state =
     open_em_state
       \<lparr>marks := [Mark ''LinkMark'' (Some [(''href'', JStr ''a''), (''title'', JNull)]),
                  Mark ''EmMark'' None,
                  Mark ''LinkMark'' (Some [(''href'', JStr ''b''), (''title'', JNull)])]\<rparr>"

section \<open>Closing nodes\<close>

lemma closeNode_Cons:
  "stack st = info # rest \<Longrightarrow>
   closeNode st =
     Inr (frame_node (schema st) info,
          push (st\<lparr>stack := rest, marks := []\<rparr>) (frame_node (schema st) info))"
  by (cases st)
    (auto simp: closeNode_def addNode_def frame_node_def noMarks_def Let_def split: list.splits)

lemma close_loop_unwind:
  "stack st = f # fs \<Longrightarrow>
   close_loop st = Inr (unwind (schema st) (frame_node (schema st) f) fs)"
proof (induction fs arbitrary: st f)
  case Nil
  then show ?case
    by (subst close_loop.simps) (simp add: closeNode_Cons)
next
  case (Cons g gs)
  let ?n = "frame_node (schema st) f"
  let ?st' = "push (st\<lparr>stack := g # gs, marks := []\<rparr>) ?n"
  have st': "stack ?st' = g\<lparr>fcontent := fcontent g @ [?n]\<rparr> # gs" "schema ?st' = schema st"
    by simp_all
  have "close_loop st = close_loop ?st'"
    using Cons.prems by (subst close_loop.simps) (simp add: closeNode_Cons)
  also have "\<dots> =
      Inr (unwind (schema st) (frame_node (schema st) (g\<lparr>fcontent := fcontent g @ [?n]\<rparr>)) gs)"
    using Cons.IH [OF st'(1)] st'(2) by simp
  finally show ?case by simp
qed

lemma paragraph_only_registry:
  "MarkdownParseState sch None paragraph_only toks =
     Inr (\<lparr>schema = sch,
           stack = [\<lparr>ftype = nodes_doc sch, fattrs = None, fcontent = []\<rparr>],
           state_tokens = toks, marks = []\<rparr>, paragraph_registry)"
  by (simp add: MarkdownParseState_def tokenTypeInfo_def summarizeTokens_def paragraph_only_def
      registerTokens_def paragraph_registry_def noMarks_def)

text \<open>
  C1 (as amended). \<^verbatim>\<open>closeNode\<close> empties the active Mark Set before it reads it for the
  construction: whatever marks \<open>ms\<close> are active, the factory is called with the type, the
  attributes and the content of the popped frame and with the empty Mark Set, and the
  state that remains has no active marks. The marks active before the call never reach
  the node.
\<close>

theorem closeNode_builds_with_reset_marks:
  "closeNode \<lparr>schema = sch, stack = info # rest, state_tokens = ts, marks = ms\<rparr> =
     Inr (createAutoFill sch (ftype info) (fattrs info) (Some (fcontent info)) [],
          push \<lparr>schema = sch, stack = rest, state_tokens = ts, marks = []\<rparr>
            (createAutoFill sch (ftype info) (fattrs info) (Some (fcontent info)) []))"
  by (simp add: closeNode_Cons frame_node_def)

theorem closeNode_builds_with_reset_marks_witness:
  "closeNode open_em_state =
     Inr (Node ''Paragraph'' None [] [],
          \<lparr>schema = record_schema,
           stack = [\<lparr>ftype = ''doc'', fattrs = None,
                     fcontent = [Node ''Paragraph'' None [] []]\<rparr>],
           state_tokens = [], marks = []\<rparr>)"
  using closeNode_builds_with_reset_marks
    [of record_schema "\<lparr>ftype = ''Paragraph'', fattrs = None, fcontent = []\<rparr>"
        "[\<lparr>ftype = ''doc'', fattrs = None, fcontent = []\<rparr>]" "[]" "[Mark ''EmMark'' None]"]
  by (simp add: open_em_state_def record_schema_def)

text \<open>
  C1 (as stated) fails: with the emphasis mark active, the paragraph closed by
  \<^verbatim>\<open>closeNode\<close> is built with no marks, not with the set that was active before the
  reset.
\<close>

theorem closeNode_marks_counterexample:
  "marks open_em_state = [Mark ''EmMark'' None] \<and>
   map_sum id fst (closeNode open_em_state) = Inr (Node ''Paragraph'' None [] []) \<and>
   map_sum id fst (closeNode open_em_state) \<noteq>
     Inr (createAutoFill record_schema ''Paragraph'' None (Some []) (marks open_em_state))"
  by (simp add: open_em_state_def closeNode_def addNode_def record_schema_def noMarks_def
      Let_def)

section \<open>The root frame during a parse\<close>

text \<open>
  The operations of the tree builder keep the root frame at the bottom of the stack, as
  long as \<^verbatim>\<open>closeNode\<close> is called with a frame open above it; so do the handlers of the
  registry, by induction over the tokens, and the parse functions of the module.
\<close>

lemma addText_rooted: "rooted sch d st \<Longrightarrow> addText st s = Inr st' \<Longrightarrow> rooted sch d st'"
  by (cases "stack st") (auto simp: rooted_def Let_def split: option.splits if_splits)

lemma openNode_rooted: "rooted sch d st \<Longrightarrow> rooted sch (Suc d) (openNode st ty a)"
  by (cases "stack st") (auto simp: rooted_def openNode_def)

lemma closeNode_rooted:
  "rooted sch (Suc d) st \<Longrightarrow> closeNode st = Inr r \<Longrightarrow> rooted sch d (snd r)"
  by (cases "stack st"; cases "tl (stack st)")
     (auto simp: rooted_def closeNode_Cons split: if_splits)

lemma marks_rooted: "rooted sch d st \<Longrightarrow> rooted sch d (st\<lparr>marks := ms\<rparr>)"
  by (simp add: rooted_def)

lemma parseTokens_rooted:
  "nesting reg toks d = Some d' \<Longrightarrow> parseTokens reg toks st = Inr st' \<Longrightarrow>
   \<forall>name h. reg name = Some (Bound h) \<longrightarrow> keeps_root h \<Longrightarrow>
   rooted sch d st \<Longrightarrow> rooted sch d' st'"
proof (induction reg toks d arbitrary: st st' d' rule: nesting.induct)
  case (1 reg d)
  then show ?case by simp
next
  case (2 reg ty a c children tg mk toks d)
  let ?t = "Token ty a c children tg mk"
  note nest = "2.prems"(1) and bound = "2.prems"(3) and root = "2.prems"(4)
  from nest obtain h where h: "reg ty = Some h"
    by (auto split: option.splits)
  with "2.prems"(2) obtain st1 where
    st1: "call reg h st ?t = Inr st1" and rest: "parseTokens reg toks st1 = Inr st'"
    by (auto split: sum.splits)
  show ?case
  proof (cases h)
    case TextHandler
    with h nest have n: "nesting reg toks d = Some d'" by simp
    from TextHandler st1 root have "rooted sch d st1"
      by (auto dest: addText_rooted simp del: addText.simps)
    from "2.IH"(1) [OF h TextHandler n rest bound this] show ?thesis .
  next
    case InlineHandler
    with h nest obtain cs d1 where
      cs: "children = Some cs" and d1: "nesting reg cs d = Some d1"
      and n: "nesting reg toks d1 = Some d'"
      by (auto split: option.splits)
    from InlineHandler st1 cs have "parseTokens reg cs st = Inr st1" by simp
    from "2.IH"(2) [OF h InlineHandler cs d1 this bound root]
    have "rooted sch d1 st1" .
    from "2.IH"(3) [OF h InlineHandler cs d1 n rest bound this]
    show ?thesis .
  next
    case SoftbreakHandler
    with h nest have n: "nesting reg toks d = Some d'" by simp
    from SoftbreakHandler st1 root have "rooted sch d st1"
      by (auto dest: addText_rooted simp del: addText.simps)
    from "2.IH"(4) [OF h SoftbreakHandler n rest bound this] show ?thesis .
  next
    case (BlockOpen ty' asp)
    with h nest have n: "nesting reg toks (Suc d) = Some d'" by simp
    from BlockOpen st1 root have "rooted sch (Suc d) st1"
      by (auto dest: openNode_rooted)
    from "2.IH"(5) [OF h BlockOpen n rest bound this] show ?thesis .
  next
    case BlockClose
    with h nest obtain d0 where d0: "d = Suc d0" and n: "nesting reg toks d0 = Some d'"
      by (auto split: nat.splits)
    from BlockClose st1 obtain r where "closeNode st = Inr r" "st1 = snd r"
      by (auto split: sum.splits)
    with root d0 have "rooted sch d0 st1"
      by (auto dest: closeNode_rooted)
    from "2.IH"(6) [OF h BlockClose d0 n rest bound this] show ?thesis .
  next
    case (MarkOpen ty' asp)
    with h nest have n: "nesting reg toks d = Some d'" by simp
    from MarkOpen st1 root have "rooted sch d st1"
      by (auto simp: openMark_def marks_rooted)
    from "2.IH"(7) [OF h MarkOpen n rest bound this] show ?thesis .
  next
    case (MarkClose ty')
    with h nest have n: "nesting reg toks d = Some d'" by simp
    from MarkClose st1 root have "rooted sch d st1"
      by (auto simp: closeMark_def marks_rooted)
    from "2.IH"(8) [OF h MarkClose n rest bound this] show ?thesis .
  next
    case (Bound f)
    with h nest have n: "nesting reg toks d = Some d'" by simp
    from Bound h bound have "keeps_root f" by blast
    with Bound st1 root have "rooted sch d st1"
      by (auto simp: keeps_root_def)
    from "2.IH"(9) [OF h Bound n rest bound this] show ?thesis .
  qed
qed

lemma unwind_snoc:
  "unwind sch n (gs @ [r]) = frame_node sch (r\<lparr>fcontent := fcontent r @ [unwind sch n gs]\<rparr>)"
  by (induction gs arbitrary: n) simp_all

lemma rooted_stack:
  "rooted sch d st \<Longrightarrow>
   \<exists>opened root_content.
     stack st = opened @ [\<lparr>ftype = nodes_doc sch, fattrs = None, fcontent = root_content\<rparr>] \<and>
     length opened = d"
proof -
  assume r: "rooted sch d st"
  then have ne: "stack st \<noteq> []" by (auto simp: rooted_def)
  let ?r = "last (stack st)"
  have "stack st = butlast (stack st) @ [?r]" using ne by simp
  moreover have "?r = \<lparr>ftype = nodes_doc sch, fattrs = None, fcontent = fcontent ?r\<rparr>"
    using r by (cases ?r) (simp add: rooted_def)
  moreover have "length (butlast (stack st)) = d" using r by (simp add: rooted_def)
  ultimately show ?thesis by metis
qed

lemma push_rooted: "rooted sch d st \<Longrightarrow> rooted sch d (push st n)"
  by (cases "stack st") (auto simp: rooted_def)

lemma addNode_rooted: "rooted sch d st \<Longrightarrow> rooted sch d (snd (addNode st ty a c))"
  by (simp add: addNode_def Let_def push_rooted del: push.simps)

lemma keeps_root_parseCodeBlock: "keeps_root (parseCodeBlock this)"
  unfolding keeps_root_def
proof (intro allI impI, elim conjE)
  fix sch d st t st'
  assume r: "rooted sch d st" and p: "parseCodeBlock this st t = Inr st'"
  from p obtain s1 r2 where
    a: "addText (openNode st this None) (trimTrailingNewline (tok_content t)) = Inr s1"
    and c: "closeNode s1 = Inr r2" and e: "st' = snd r2"
    unfolding parseCodeBlock_def by (auto split: sum.splits simp del: addText.simps)
  from openNode_rooted [OF r] have "rooted sch (Suc d) (openNode st this None)" .
  from addText_rooted [OF this a] have "rooted sch (Suc d) s1" .
  from closeNode_rooted [OF this c] e show "rooted sch d st'" by simp
qed

lemma keeps_root_parse_hr: "keeps_root (parse_hr this)"
  unfolding keeps_root_def parse_hr_def by (auto simp: addNode_rooted)

lemma keeps_root_parse_image: "keeps_root (parse_image this)"
  unfolding keeps_root_def parse_image_def by (auto simp: addNode_rooted split: option.splits)

lemma keeps_root_parse_hardbreak: "keeps_root (parse_hardbreak this)"
  unfolding keeps_root_def parse_hardbreak_def by (auto simp: addNode_rooted)

lemma keeps_root_parse_code_inline: "keeps_root (parse_code_inline this)"
  unfolding keeps_root_def
proof (intro allI impI, elim conjE)
  fix sch d st t st'
  assume r: "rooted sch d st" and p: "parse_code_inline this st t = Inr st'"
  from p obtain s1 where
    a: "addText (openMark st (create this None)) (tok_content t) = Inr s1"
    and e: "st' = closeMark s1 this"
    unfolding parse_code_inline_def by (auto split: sum.splits simp del: addText.simps)
  from r have "rooted sch d (openMark st (create this None))"
    by (simp add: openMark_def marks_rooted)
  from addText_rooted [OF this a] have "rooted sch d s1" .
  with e show "rooted sch d st'"
    by (simp add: closeMark_def marks_rooted)
qed


lemma registerTokens_bound:
  "registerTokens tokens ty info = Inr reg \<Longrightarrow> reg name = Some (Bound h) \<Longrightarrow>
   tokens name = Some (Bound h) \<or> (\<exists>f. parse info = ParseFunction f \<and> h = f ty)"
  by (auto simp: registerTokens_def split: parse.splits if_splits)

lemma registry_loop_bound:
  "registry_loop tokens ds = Inr reg \<Longrightarrow> reg name = Some (Bound h) \<Longrightarrow>
   tokens name = Some (Bound h) \<or>
   (\<exists>d \<in> set ds. \<exists>f. parse (fst d) = ParseFunction f \<and> h = f (snd d))"
proof (induction ds arbitrary: tokens)
  case Nil
  then show ?case by simp
next
  case (Cons x xs)
  from Cons.prems(1) obtain tokens' where
    x: "registerTokens tokens (snd x) (fst x) = Inr tokens'"
    and xs: "registry_loop tokens' xs = Inr reg"
    by (auto split: sum.splits)
  from Cons.IH [OF xs Cons.prems(2)] registerTokens_bound [OF x, of name h]
  show ?case by auto
qed

lemma module_registry_keeps_root:
  assumes "summarizeTokens (parseMarkdown_declarations S) = Inr reg"
    and "reg name = Some (Bound h)"
  shows "keeps_root h"
proof -
  from registry_loop_bound [OF assms(1) [unfolded summarizeTokens_def] assms(2)]
  have "\<exists>d \<in> set (parseMarkdown_declarations S). \<exists>f. parse (fst d) = ParseFunction f \<and> h = f (snd d)"
    by (auto split: if_splits)
  then show ?thesis
    by (auto simp: parseMarkdown_declarations_def keeps_root_parseCodeBlock keeps_root_parse_hr
        keeps_root_parse_image keeps_root_parse_hardbreak keeps_root_parse_code_inline)
qed


lemma module_registry_blocks:
  "\<exists>reg. summarizeTokens (parseMarkdown_declarations S) = Inr reg \<and>
     reg ''text'' = Some TextHandler \<and>
     reg ''blockquote_open'' = Some (BlockOpen ''BlockQuote'' (AttrsValue None)) \<and>
     reg ''paragraph_open'' = Some (BlockOpen ''Paragraph'' (AttrsValue None)) \<and>
     reg ''fence'' = Some (Bound (parseCodeBlock ''CodeBlock''))"
  by (simp add: summarizeTokens_def parseMarkdown_declarations_def registerTokens_def)

text \<open>
  C2 (as amended). Let the tokens be consumed without an error, let no closing block
  token come while no block frame is open above the root, and let the parse functions of
  the declarations keep the root (those of the module do). Then the stack after the
  tokens is the root frame with the \<open>d\<close> frames still open above it, and the driver, which
  closes the top frame until the stack is empty, returns the node of the root frame: the
  factory applied to the document type and to the children of the root frame, intact and
  in their order, followed, when frames are still open, by the node of the lowest open
  frame. Each open frame is built from its own type, attributes and children, in their
  order, with the node of the frame above it as the last child (\<open>unwind\<close>); for one open
  frame this is spelled out.
\<close>

theorem fromMarkdown_forced_unwind:
  assumes "MarkdownParseState sch cached parseMarkdown toks = Inr (st0, reg)"
    and "parseTokens reg toks st0 = Inr st"
    and "nesting reg toks 0 = Some d"
    and "\<forall>name h. reg name = Some (Bound h) \<longrightarrow> keeps_root h"
  shows "\<exists>opened root_content.
           stack st = opened @
             [\<lparr>ftype = nodes_doc sch, fattrs = None, fcontent = root_content\<rparr>] \<and>
           length opened = d \<and>
           fromMarkdown sch cached parseMarkdown toks =
             Inr (createAutoFill sch (nodes_doc sch) None
                    (Some (root_content @
                       (case opened of
                          [] \<Rightarrow> []
                        | f # fs \<Rightarrow> [unwind sch (frame_node sch f) fs]))) []) \<and>
           (\<forall>f. opened = [f] \<longrightarrow>
              fromMarkdown sch cached parseMarkdown toks =
                Inr (createAutoFill sch (nodes_doc sch) None
                       (Some (root_content @
                          [createAutoFill sch (ftype f) (fattrs f) (Some (fcontent f)) []]))
                       []))"
proof -
  from assms(1) have "rooted sch 0 st0"
    by (auto simp: MarkdownParseState_def rooted_def split: sum.splits)
  from parseTokens_rooted [OF assms(3) assms(2) assms(4) this] have r: "rooted sch d st" .
  then have sch: "schema st = sch" by (simp add: rooted_def)
  from rooted_stack [OF r] obtain opened root_content where
    st: "stack st = opened @ [\<lparr>ftype = nodes_doc sch, fattrs = None, fcontent = root_content\<rparr>]"
    and len: "length opened = d"
    by blast
  let ?root = "\<lparr>ftype = nodes_doc sch, fattrs = None, fcontent = root_content\<rparr>"
  have "close_loop st =
          Inr (createAutoFill sch (nodes_doc sch) None
                 (Some (root_content @
                    (case opened of
                       [] \<Rightarrow> []
                     | f # fs \<Rightarrow> [unwind sch (frame_node sch f) fs]))) [])"
  proof (cases opened)
    case Nil
    with st have "stack st = ?root # []" by simp
    from close_loop_unwind [OF this] Nil sch show ?thesis
      by (simp add: frame_node_def)
  next
    case (Cons f fs)
    with st have "stack st = f # (fs @ [?root])" by simp
    from close_loop_unwind [OF this] Cons sch show ?thesis
      by (simp add: unwind_snoc) (simp add: frame_node_def)
  qed
  with assms(1,2) have "fromMarkdown sch cached parseMarkdown toks =
          Inr (createAutoFill sch (nodes_doc sch) None
                 (Some (root_content @
                    (case opened of
                       [] \<Rightarrow> []
                     | f # fs \<Rightarrow> [unwind sch (frame_node sch f) fs]))) [])"
    by (simp add: fromMarkdown_def)
  with st len show ?thesis
    by (intro exI [of _ opened] exI [of _ root_content]) (auto simp: frame_node_def)
qed

theorem fromMarkdown_forced_unwind_witness:
  "fromMarkdown record_schema None (parseMarkdown_declarations no_numerals)
     [tok ''blockquote_open'', Token ''fence'' None (''x'' @ [CHR 0x0A]) None [] [],
      tok ''paragraph_open'', text_tok ''a''] =
   Inr (Node ''doc'' None
          [Node ''BlockQuote'' None
             [Node ''CodeBlock'' None [Text ''x'' []] [],
              Node ''Paragraph'' None [Text ''a'' []] []] []] [])"
proof -
  let ?toks = "[tok ''blockquote_open'', Token ''fence'' None (''x'' @ [CHR 0x0A]) None [] [],
      tok ''paragraph_open'', text_tok ''a'']"
  let ?decls = "parseMarkdown_declarations no_numerals"
  let ?init = "\<lparr>schema = record_schema,
               stack = [\<lparr>ftype = nodes_doc record_schema, fattrs = None, fcontent = []\<rparr>],
               state_tokens = ?toks, marks = []\<rparr>"
  let ?p = "\<lparr>ftype = ''Paragraph'', fattrs = None, fcontent = [Text ''a'' []]\<rparr>"
  let ?q = "\<lparr>ftype = ''BlockQuote'', fattrs = None,
             fcontent = [Node ''CodeBlock'' None [Text ''x'' []] []]\<rparr>"
  let ?root = "\<lparr>ftype = nodes_doc record_schema, fattrs = None, fcontent = []\<rparr>"
  let ?st = "\<lparr>schema = record_schema, stack = [?p, ?q] @ [?root],
              state_tokens = ?toks, marks = []\<rparr>"
  from module_registry_blocks [of no_numerals] obtain reg where
    reg: "summarizeTokens ?decls = Inr reg" and
    entries: "reg ''text'' = Some TextHandler"
      "reg ''blockquote_open'' = Some (BlockOpen ''BlockQuote'' (AttrsValue None))"
      "reg ''paragraph_open'' = Some (BlockOpen ''Paragraph'' (AttrsValue None))"
      "reg ''fence'' = Some (Bound (parseCodeBlock ''CodeBlock''))"
    by blast
  have h1: "MarkdownParseState record_schema None ?decls ?toks = Inr (?init, reg)"
    by (simp add: MarkdownParseState_def tokenTypeInfo_def reg noMarks_def)
  have h2: "parseTokens reg ?toks ?init = Inr ?st"
    by (simp add: entries tok_def text_tok_def openNode_def parseCodeBlock_def
        trimTrailingNewline_def schema_text_def closeNode_def addNode_def noMarks_def
        record_schema_def Let_def)
  have h3: "nesting reg ?toks 0 = Some 2"
    by (simp add: entries tok_def text_tok_def)
  have h4: "\<forall>name h. reg name = Some (Bound h) \<longrightarrow> keeps_root h"
    using module_registry_keeps_root [OF reg] by blast
  from fromMarkdown_forced_unwind [OF h1 h2 h3 h4]
  obtain opened root_content where
    st: "stack ?st = opened @
           [\<lparr>ftype = nodes_doc record_schema, fattrs = None, fcontent = root_content\<rparr>]"
    and res: "fromMarkdown record_schema None ?decls ?toks =
             Inr (createAutoFill record_schema (nodes_doc record_schema) None
                    (Some (root_content @
                       (case opened of
                          [] \<Rightarrow> []
                        | f # fs \<Rightarrow> [unwind record_schema (frame_node record_schema f) fs]))) [])"
    by blast
  from st have "opened = [?p, ?q]" "root_content = []"
    by simp_all
  with res show ?thesis
    by (simp add: frame_node_def record_schema_def)
qed

text \<open>
  C2 (as stated) fails on a sequence that closes more than it opens: the closing token
  pops the root frame, and the first round of the driver's loop pops an empty stack,
  which throws; no document is returned.
\<close>

theorem fromMarkdown_unmatched_close_counterexample:
  "fromMarkdown record_schema None paragraph_only [tok ''paragraph_close''] = Inl TypeError"
  by (simp add: fromMarkdown_def paragraph_only_registry paragraph_registry_def tok_def
      closeNode_def addNode_def record_schema_def noMarks_def close_loop.simps)

section \<open>Consuming tokens: errors and text runs\<close>

lemma parseTokens_append:
  "parseTokens reg (xs @ ys) st =
     (case parseTokens reg xs st of Inl e \<Rightarrow> Inl e | Inr st' \<Rightarrow> parseTokens reg ys st')"
  by (induction xs arbitrary: st) (auto split: option.splits sum.splits)

lemma call_inline:
  "tok_children i = Some children \<Longrightarrow> call reg InlineHandler st i = parseTokens reg children st"
  by (cases i) simp

lemma unsupported_inj: "unsupported a = unsupported b \<Longrightarrow> a = b"
  by (simp add: unsupported_def)

lemma reaches_unsupported:
  "reaches reg toks st t \<Longrightarrow> reg (tok_type t) = None \<Longrightarrow>
   parseTokens reg toks st = Inl (unsupported (tok_type t))"
proof (induction rule: reaches.induct)
  case (here reg pre st st' t post)
  then show ?case by (simp add: parseTokens_append)
next
  case (inside reg pre st st' i children t post)
  then show ?case by (simp add: parseTokens_append call_inline)
qed

lemma addText_Cons:
  "stack st = f # fs \<Longrightarrow>
   addText st s =
     Inr (st\<lparr>stack := f\<lparr>fcontent :=
            (if ends_with_run (fcontent f) (marks st)
             then butlast (fcontent f) @
                    [Text (node_text (last (fcontent f)) @ s) (node_marks (last (fcontent f)))]
             else fcontent f @ [Text s (marks st)])\<rparr> # fs\<rparr>)"
  by (cases "last (fcontent f)")
     (auto simp: ends_with_run_def maybeMerge_def schema_text_def Let_def)

text \<open>
  C3. When the parse comes to a token whose type name has no handler in the registry,
  at the top level or among the children of \<^verbatim>\<open>inline\<close> tokens, \<^verbatim>\<open>fromMarkdown\<close> returns
  no node but the error of line 118, whose message holds the type name of that token and
  so tells it from the error for any other name.
\<close>

theorem unsupported_token_fails:
  assumes "MarkdownParseState sch cached parseMarkdown toks = Inr (st0, reg)"
    and "reaches reg toks st0 t"
    and "reg (tok_type t) = None"
  shows "fromMarkdown sch cached parseMarkdown toks = Inl (unsupported (tok_type t)) \<and>
         (\<forall>ty. unsupported ty = unsupported (tok_type t) \<longrightarrow> ty = tok_type t)"
  using assms reaches_unsupported [OF assms(2,3)]
  by (auto simp: fromMarkdown_def dest: unsupported_inj)

theorem unsupported_token_fails_witness:
  "fromMarkdown record_schema None paragraph_only
     [tok ''paragraph_open'',
      Token ''inline'' None [] (Some [text_tok ''a'', tok ''bogus'', text_tok ''b'']) [] [],
      tok ''paragraph_close''] =
   Inl (Error ''Token type `bogus` not supported by Markdown parser'')"
proof -
  let ?inl = "Token ''inline'' None [] (Some [text_tok ''a'', tok ''bogus'', text_tok ''b'']) [] []"
  let ?toks = "[tok ''paragraph_open'', ?inl, tok ''paragraph_close'']"
  let ?init = "\<lparr>schema = record_schema,
               stack = [\<lparr>ftype = nodes_doc record_schema, fattrs = None, fcontent = []\<rparr>],
               state_tokens = ?toks, marks = []\<rparr>"
  have h1: "MarkdownParseState record_schema None paragraph_only ?toks =
              Inr (?init, paragraph_registry)"
    by (rule paragraph_only_registry)
  have p1: "parseTokens paragraph_registry [tok ''paragraph_open''] ?init =
              Inr (openNode ?init ''Paragraph'' None)"
    by (simp add: paragraph_registry_def tok_def)
  have p2: "parseTokens paragraph_registry [text_tok ''a''] (openNode ?init ''Paragraph'' None) =
              Inr (openNode ?init ''Paragraph'' None
                     \<lparr>stack := [\<lparr>ftype = ''Paragraph'', fattrs = None, fcontent = [Text ''a'' []]\<rparr>,
                                 \<lparr>ftype = nodes_doc record_schema, fattrs = None,
                                   fcontent = []\<rparr>]\<rparr>)"
    by (simp add: paragraph_registry_def text_tok_def openNode_def schema_text_def)
  have r1: "reaches paragraph_registry [text_tok ''a'', tok ''bogus'', text_tok ''b'']
              (openNode ?init ''Paragraph'' None) (tok ''bogus'')"
    using reaches.here [OF p2, of "tok ''bogus''" "[text_tok ''b'']"] by simp
  have h2: "reaches paragraph_registry ?toks ?init (tok ''bogus'')"
    using reaches.inside [OF p1 _ _ r1, of ?inl "[tok ''paragraph_close'']"]
    by (simp add: paragraph_registry_def)
  have h3: "paragraph_registry (tok_type (tok ''bogus'')) = None"
    by (simp add: paragraph_registry_def tok_def)
  show ?thesis
    using unsupported_token_fails [OF h1 h2 h3]
    by (simp add: unsupported_def tok_def)
qed

text \<open>
  C4. In an open frame \<open>f\<close>, two consecutive \<^verbatim>\<open>text\<close> tokens consumed under one active
  Mark Set leave exactly one text run for both: a new last child holding the
  concatenation of the two contents, or, when the content already ended with a run of
  that Mark Set, that run with the concatenation appended. When the active Mark Set is
  replaced by a different one between the two tokens, the second token adds a new run of
  its own after the run of the first.
\<close>

theorem adjacent_text_runs:
  assumes "stack st = f # fs" and "reg ''text'' = Some TextHandler"
  shows "parseTokens reg [text_tok t1, text_tok t2] st =
           Inr (st\<lparr>stack := f\<lparr>fcontent :=
              (if ends_with_run (fcontent f) (marks st)
               then butlast (fcontent f) @
                      [Text (node_text (last (fcontent f)) @ t1 @ t2)
                         (node_marks (last (fcontent f)))]
               else fcontent f @ [Text (t1 @ t2) (marks st)])\<rparr> # fs\<rparr>) \<and>
         (\<forall>s1 ms2. parseTokens reg [text_tok t1] st = Inr s1 \<and> \<not> sameSet (marks st) ms2 \<longrightarrow>
            parseTokens reg [text_tok t2] (s1\<lparr>marks := ms2\<rparr>) =
              Inr (s1\<lparr>marks := ms2,
                      stack := f\<lparr>fcontent :=
                        (if ends_with_run (fcontent f) (marks st)
                         then butlast (fcontent f) @
                                [Text (node_text (last (fcontent f)) @ t1)
                                   (node_marks (last (fcontent f)))]
                         else fcontent f @ [Text t1 (marks st)]) @ [Text t2 ms2]\<rparr> # fs\<rparr>))"
proof (intro conjI allI impI)
  show "parseTokens reg [text_tok t1, text_tok t2] st =
           Inr (st\<lparr>stack := f\<lparr>fcontent :=
              (if ends_with_run (fcontent f) (marks st)
               then butlast (fcontent f) @
                      [Text (node_text (last (fcontent f)) @ t1 @ t2)
                         (node_marks (last (fcontent f)))]
               else fcontent f @ [Text (t1 @ t2) (marks st)])\<rparr> # fs\<rparr>)"
    using assms
    by (simp add: text_tok_def addText_Cons ends_with_run_def sameSet_def del: addText.simps)
next
  fix s1 ms2
  assume a: "parseTokens reg [text_tok t1] st = Inr s1 \<and> \<not> sameSet (marks st) ms2"
  show "parseTokens reg [text_tok t2] (s1\<lparr>marks := ms2\<rparr>) =
              Inr (s1\<lparr>marks := ms2,
                      stack := f\<lparr>fcontent :=
                        (if ends_with_run (fcontent f) (marks st)
                         then butlast (fcontent f) @
                                [Text (node_text (last (fcontent f)) @ t1)
                                   (node_marks (last (fcontent f)))]
                         else fcontent f @ [Text t1 (marks st)]) @ [Text t2 ms2]\<rparr> # fs\<rparr>)"
  proof -
    let ?c = "if ends_with_run (fcontent f) (marks st)
              then butlast (fcontent f) @
                     [Text (node_text (last (fcontent f)) @ t1) (node_marks (last (fcontent f)))]
              else fcontent f @ [Text t1 (marks st)]"
    from a assms have s1: "s1 = st\<lparr>stack := f\<lparr>fcontent := ?c\<rparr> # fs\<rparr>"
      by (simp add: text_tok_def addText_Cons del: addText.simps)
    from a have "\<not> ends_with_run ?c ms2"
      by (auto simp: ends_with_run_def sameSet_def)
    moreover have "stack (s1\<lparr>marks := ms2\<rparr>) = f\<lparr>fcontent := ?c\<rparr> # fs"
      by (simp add: s1)
    ultimately show ?thesis
      using assms(2)
      by (simp add: text_tok_def addText_Cons s1 del: addText.simps)
  qed
qed

theorem adjacent_text_runs_witness:
  "parseTokens paragraph_registry [text_tok ''a'', text_tok ''b''] open_em_state =
     Inr (open_em_state
            \<lparr>stack := [\<lparr>ftype = ''Paragraph'', fattrs = None,
                         fcontent = [Text ''ab'' [Mark ''EmMark'' None]]\<rparr>,
                       \<lparr>ftype = ''doc'', fattrs = None, fcontent = []\<rparr>]\<rparr>) \<and>
   parseTokens paragraph_registry [text_tok ''b'']
     (open_em_state
        \<lparr>stack := [\<lparr>ftype = ''Paragraph'', fattrs = None,
                     fcontent = [Text ''a'' [Mark ''EmMark'' None]]\<rparr>,
                   \<lparr>ftype = ''doc'', fattrs = None, fcontent = []\<rparr>],
         marks := []\<rparr>) =
     Inr (open_em_state
            \<lparr>stack := [\<lparr>ftype = ''Paragraph'', fattrs = None,
                         fcontent = [Text ''a'' [Mark ''EmMark'' None], Text ''b'' []]\<rparr>,
                       \<lparr>ftype = ''doc'', fattrs = None, fcontent = []\<rparr>],
             marks := []\<rparr>)"
proof -
  let ?f = "\<lparr>ftype = ''Paragraph'', fattrs = None, fcontent = []\<rparr>"
  let ?fs = "[\<lparr>ftype = ''doc'', fattrs = None, fcontent = []\<rparr>]"
  let ?s1 = "open_em_state
        \<lparr>stack := [\<lparr>ftype = ''Paragraph'', fattrs = None,
                     fcontent = [Text ''a'' [Mark ''EmMark'' None]]\<rparr>,
                   \<lparr>ftype = ''doc'', fattrs = None, fcontent = []\<rparr>]\<rparr>"
  have h1: "stack open_em_state = ?f # ?fs"
    by (simp add: open_em_state_def)
  have h2: "paragraph_registry ''text'' = Some TextHandler"
    by (simp add: paragraph_registry_def)
  have h3: "parseTokens paragraph_registry [text_tok ''a''] open_em_state = Inr ?s1 \<and>
            \<not> sameSet (marks open_em_state) []"
    by (simp add: paragraph_registry_def text_tok_def open_em_state_def schema_text_def
        sameSet_def)
  note inst = adjacent_text_runs
    [where st = open_em_state and reg = paragraph_registry and ?t1.0 = "''a''"
       and ?t2.0 = "''b''", OF h1 h2]
  from inst [THEN conjunct1]
  have "parseTokens paragraph_registry [text_tok ''a'', text_tok ''b''] open_em_state =
     Inr (open_em_state
            \<lparr>stack := [\<lparr>ftype = ''Paragraph'', fattrs = None,
                         fcontent = [Text ''ab'' [Mark ''EmMark'' None]]\<rparr>,
                       \<lparr>ftype = ''doc'', fattrs = None, fcontent = []\<rparr>]\<rparr>)"
    by (simp add: ends_with_run_def open_em_state_def)
  moreover from inst [THEN conjunct2, rule_format, of ?s1 "[]", OF h3]
  have "parseTokens paragraph_registry [text_tok ''b''] (?s1\<lparr>marks := []\<rparr>) =
     Inr (open_em_state
            \<lparr>stack := [\<lparr>ftype = ''Paragraph'', fattrs = None,
                         fcontent = [Text ''a'' [Mark ''EmMark'' None], Text ''b'' []]\<rparr>,
                       \<lparr>ftype = ''doc'', fattrs = None, fcontent = []\<rparr>],
             marks := []\<rparr>)"
    by (simp add: ends_with_run_def open_em_state_def)
  ultimately show ?thesis by simp
qed

section \<open>Building the registry\<close>

lemma registerTokens_unrecognized:
  "\<not> recognized (parse info) \<Longrightarrow> registerTokens tokens ty info = Inl (build_error (parse info))"
  by (auto simp: recognized_def registerTokens_def build_error_def split: parse.splits)

lemma registerTokens_recognized:
  "recognized (parse info) \<Longrightarrow> \<exists>reg. registerTokens tokens ty info = Inr reg"
  by (auto simp: recognized_def registerTokens_def split: parse.splits)

lemma registry_loop_unrecognized:
  "d \<in> set ds \<Longrightarrow> \<not> recognized (parse (fst d)) \<Longrightarrow>
   \<exists>d' \<in> set ds. \<not> recognized (parse (fst d')) \<and>
      registry_loop tokens ds = Inl (build_error (parse (fst d')))"
proof (induction ds arbitrary: tokens)
  case Nil
  then show ?case by simp
next
  case (Cons x xs)
  show ?case
  proof (cases "recognized (parse (fst x))")
    case True
    then obtain reg where reg: "registerTokens tokens (snd x) (fst x) = Inr reg"
      using registerTokens_recognized by blast
    from True Cons.prems have "d \<in> set xs" by auto
    from Cons.IH [OF this Cons.prems(2), of reg] reg show ?thesis by auto
  next
    case False
    then show ?thesis by (auto simp: registerTokens_unrecognized)
  qed
qed

text \<open>
  What the construction of the registry does with a declaration whose \<^verbatim>\<open>parse\<close> is neither
  \<^verbatim>\<open>"block"\<close>, nor \<^verbatim>\<open>"mark"\<close>, nor a function: \<^verbatim>\<open>summarizeTokens\<close> returns an error and no
  registry, and \<^verbatim>\<open>fromMarkdown\<close> fails with that error on every schema with no cached
  registry and every token list, before any token is consumed. The error is the assertion
  of line 175 for a missing or empty \<^verbatim>\<open>parse\<close>, and the TypeError of the call of \<^verbatim>\<open>bind\<close>
  for any other string.
\<close>

lemma registry_build_fails:
  assumes "(info, ty) \<in> set parseMarkdown" and "\<not> recognized (parse info)"
  shows "\<exists>e. summarizeTokens parseMarkdown = Inl e \<and>
           (\<forall>sch toks. fromMarkdown sch None parseMarkdown toks = Inl e) \<and>
           (e = AssertionError ''Unrecognized markdown parsing spec: [object Object]'' \<or>
            e = TypeError)"
proof -
  have "\<exists>d' \<in> set parseMarkdown. \<not> recognized (parse (fst d')) \<and>
          summarizeTokens parseMarkdown = Inl (build_error (parse (fst d')))"
    unfolding summarizeTokens_def
    using assms by (intro registry_loop_unrecognized [of "(info, ty)"]) simp_all
  then show ?thesis
    by (auto simp: fromMarkdown_def MarkdownParseState_def tokenTypeInfo_def build_error_def)
qed

text \<open>
  C5 (a defect of the code). For the declaration \<^verbatim>\<open>{token: "note", parse: "inline"}\<close>,
  whose \<^verbatim>\<open>parse\<close> is a string other than \<^verbatim>\<open>"block"\<close> and \<^verbatim>\<open>"mark"\<close>, \<^verbatim>\<open>registerTokens\<close> takes
  the branch of line 173 and the construction of the registry ends with the TypeError of
  \<^verbatim>\<open>info.parse.bind\<close>, not with the configuration error of line 175, which the same
  function raises when \<^verbatim>\<open>parse\<close> is missing.
\<close>

theorem unrecognized_string_parse_type_error:
  "summarizeTokens unrecognized_declarations = Inl TypeError \<and>
   fromMarkdown record_schema None unrecognized_declarations [] = Inl TypeError \<and>
   summarizeTokens missing_parse_declarations =
     Inl (AssertionError ''Unrecognized markdown parsing spec: [object Object]'')"
  by (simp add: summarizeTokens_def unrecognized_declarations_def missing_parse_declarations_def
      registerTokens_def fromMarkdown_def MarkdownParseState_def tokenTypeInfo_def)

text \<open>
  C6. A declaration with \<^verbatim>\<open>parse == "block"\<close> for the type \<open>ty\<close> and the token name
  \<open>token info\<close> changes the registry at the two names with the suffixes \<^verbatim>\<open>_open\<close> and
  \<^verbatim>\<open>_close\<close> and at no other name. A token of the first name pushes a frame of type \<open>ty\<close>
  with no content, whose attributes are the result of the \<^verbatim>\<open>attrs\<close> function on the
  state and the token, or the \<^verbatim>\<open>attrs\<close> value. A token of the second name pops the top
  frame, builds its node and appends it to the content of the frame below.
\<close>

theorem block_declaration_handlers:
  assumes "parse info = ParseString ''block''"
  shows "\<exists>reg. registerTokens tokens ty info = Inr reg \<and>
     (name \<noteq> token info @ ''_open'' \<and> name \<noteq> token info @ ''_close'' \<longrightarrow>
        reg name = tokens name) \<and>
     (tok_type t = token info @ ''_open'' \<longrightarrow>
        parseTokens reg [t] st =
          Inr (st\<lparr>stack :=
                 \<lparr>ftype = ty,
                  fattrs = (case attrs info of AttrsFunction g \<Rightarrow> g st t | AttrsValue a \<Rightarrow> a),
                  fcontent = []\<rparr> # stack st\<rparr>)) \<and>
     (tok_type t' = token info @ ''_close'' \<and> stack st' = f # g # rest \<longrightarrow>
        parseTokens reg [t'] st' =
          Inr (st'\<lparr>stack :=
                 g\<lparr>fcontent := fcontent g @
                    [createAutoFill (schema st') (ftype f) (fattrs f) (Some (fcontent f)) []]\<rparr>
                 # rest,
                 marks := []\<rparr>))"
  using assms
  by (auto simp: registerTokens_def openNode_def closeNode_Cons frame_node_def
      split: attrs_spec.splits)

theorem block_declaration_handlers_witness:
  "\<exists>reg. registerTokens Map.empty ''Heading'' heading_info = Inr reg \<and>
     reg ''text'' = None \<and>
     parseTokens reg [Token ''heading_open'' None [] None ''h2'' []] open_em_state =
       Inr (open_em_state
             \<lparr>stack := \<lparr>ftype = ''Heading'', fattrs = Some [(''level'', JStr ''2'')],
                         fcontent = []\<rparr> # stack open_em_state\<rparr>) \<and>
     parseTokens reg [tok ''heading_close''] open_em_state =
       Inr (open_em_state
             \<lparr>stack := [\<lparr>ftype = ''doc'', fattrs = None,
                          fcontent = [Node ''Paragraph'' None [] []]\<rparr>],
              marks := []\<rparr>)"
proof -
  have h: "parse heading_info = ParseString ''block''"
    by (simp add: heading_info_def)
  show ?thesis
    using block_declaration_handlers
      [OF h, where tokens = Map.empty and ty = "''Heading''" and name = "''text''"
         and t = "Token ''heading_open'' None [] None ''h2'' []" and st = open_em_state
         and t' = "tok ''heading_close''" and st' = open_em_state
         and f = "\<lparr>ftype = ''Paragraph'', fattrs = None, fcontent = []\<rparr>"
         and g = "\<lparr>ftype = ''doc'', fattrs = None, fcontent = []\<rparr>" and rest = "[]"]
    by (simp add: heading_info_def Heading_attrs_def tok_def open_em_state_def record_schema_def)
qed

text \<open>
  C7. For a declaration with \<^verbatim>\<open>parse == "mark"\<close> for the mark type \<open>ty\<close>, the closing
  token leaves in the active Mark Set the marks of the other types, in their order, and
  no mark of type \<open>ty\<close>, whatever its attributes \<open>a\<close>; when the set holds no mark of that
  type, the state is unchanged.
\<close>

theorem mark_close_handler:
  assumes "parse info = ParseString ''mark''" and "tok_type t = token info @ ''_close''"
  shows "\<exists>reg. registerTokens tokens ty info = Inr reg \<and>
     parseTokens reg [t] st = Inr (st\<lparr>marks := filter (\<lambda>m. mark_type m \<noteq> ty) (marks st)\<rparr>) \<and>
     Mark ty a \<notin> set (filter (\<lambda>m. mark_type m \<noteq> ty) (marks st)) \<and>
     (filter (\<lambda>m. mark_type m = ty) (marks st) = [] \<longrightarrow> parseTokens reg [t] st = Inr st)"
  using assms
  by (auto simp: registerTokens_def closeMark_def removeFromSet_def filter_id_conv
      filter_empty_conv)

theorem mark_close_handler_witness:
  "\<exists>reg. registerTokens Map.empty ''LinkMark'' link_info = Inr reg \<and>
      parseTokens reg [tok ''link_close''] link_em_state = Inr open_em_state \<and>
      parseTokens reg [tok ''link_close''] open_em_state = Inr open_em_state"
proof -
  have h1: "parse link_info = ParseString ''mark''"
    by (simp add: link_info_def)
  have h2: "tok_type (tok ''link_close'') = token link_info @ ''_close''"
    by (simp add: link_info_def tok_def)
  show ?thesis
    using mark_close_handler [OF h1 h2, where tokens = Map.empty and ty = "''LinkMark''"
        and st = link_em_state and a = None]
      mark_close_handler [OF h1 h2, where tokens = Map.empty and ty = "''LinkMark''"
        and st = open_em_state and a = None]
    by (auto simp: link_em_state_def open_em_state_def)
qed

section \<open>The handlers of the module's declarations\<close>

lemma module_registry:
  "\<exists>reg. summarizeTokens (parseMarkdown_declarations S) = Inr reg \<and>
     reg ''ordered_list_open'' = Some (BlockOpen ''OrderedList'' (AttrsFunction (OrderedList_attrs S))) \<and>
     reg ''heading_open'' = Some (BlockOpen ''Heading'' (AttrsFunction Heading_attrs)) \<and>
     reg ''code_block'' = Some (Bound (parseCodeBlock ''CodeBlock'')) \<and>
     reg ''fence'' = Some (Bound (parseCodeBlock ''CodeBlock''))"
  by (simp add: summarizeTokens_def parseMarkdown_declarations_def registerTokens_def)

lemma OrderedList_attrs_cases:
  "OrderedList_attrs S st t =
     Some [(''order'',
            JNum (case getAttr t ''order'' of
                    JNum n \<Rightarrow> if n = NaN \<or> n = Finite 0 then Finite 1 else n
                  | JStr s \<Rightarrow> if s = [] then Finite 1 else S s
                  | JBool b \<Rightarrow> Finite 1
                  | JNull \<Rightarrow> Finite 1
                  | JUndefined \<Rightarrow> Finite 1))]"
  by (cases "getAttr t ''order''") (auto simp: OrderedList_attrs_def js_or_def)

text \<open>
  C8 (as amended). The frame opened by an \<^verbatim>\<open>ordered_list_open\<close> token has the attribute
  \<open>order\<close>, a number: 1 when the token attribute \<^verbatim>\<open>order\<close> is absent or falsy (undefined,
  null, false, the number 0, NaN, the empty string), and else the value converted by
  \<^verbatim>\<open>Number\<close>: a number other than 0 and NaN is itself, \<^verbatim>\<open>true\<close> is 1, and a non-empty
  string is what the conversion of strings gives, which is NaN for a string that is no
  numeral.
\<close>

theorem ordered_list_order:
  assumes "tok_type t = ''ordered_list_open''"
  shows "\<exists>reg. summarizeTokens (parseMarkdown_declarations StringToNumber) = Inr reg \<and>
     parseTokens reg [t] st =
       Inr (st\<lparr>stack :=
              \<lparr>ftype = ''OrderedList'',
               fattrs = Some [(''order'',
                 JNum (case getAttr t ''order'' of
                         JNum n \<Rightarrow> if n = NaN \<or> n = Finite 0 then Finite 1 else n
                       | JStr s \<Rightarrow> if s = [] then Finite 1 else StringToNumber s
                       | JBool b \<Rightarrow> Finite 1
                       | JNull \<Rightarrow> Finite 1
                       | JUndefined \<Rightarrow> Finite 1))],
               fcontent = []\<rparr> # stack st\<rparr>)"
proof -
  from module_registry [of StringToNumber] obtain reg where
    "summarizeTokens (parseMarkdown_declarations StringToNumber) = Inr reg"
    "reg ''ordered_list_open'' =
       Some (BlockOpen ''OrderedList'' (AttrsFunction (OrderedList_attrs StringToNumber)))"
    by blast
  with assms show ?thesis
    by (simp add: openNode_def OrderedList_attrs_cases)
qed

lemma trimTrailingNewline_snoc: "trimTrailingNewline (s @ [CHR 0x0A]) = s"
  by (simp add: trimTrailingNewline_def)

lemma trimTrailingNewline_other:
  "s = [] \<or> last s \<noteq> CHR 0x0A \<Longrightarrow> trimTrailingNewline s = s"
  by (auto simp: trimTrailingNewline_def)

text \<open>
  C9. A \<^verbatim>\<open>code_block\<close> or \<^verbatim>\<open>fence\<close> token adds to the open frame a code block whose
  only child is the text run of the token's content without one trailing newline:
  content that ends with a newline loses that character only (of two, one is kept), and
  content that is empty or ends with another character is unchanged.
\<close>

theorem code_block_trims_one_newline:
  assumes "tok_type t = ''code_block'' \<or> tok_type t = ''fence''" and "stack st = g # rest"
  shows "\<exists>reg. summarizeTokens (parseMarkdown_declarations StringToNumber) = Inr reg \<and>
     parseTokens reg [t] st =
       Inr (st\<lparr>stack :=
              g\<lparr>fcontent := fcontent g @
                 [createAutoFill (schema st) ''CodeBlock'' None
                    (Some [Text (trimTrailingNewline (tok_content t)) (marks st)]) []]\<rparr> # rest,
              marks := []\<rparr>) \<and>
     trimTrailingNewline (s @ [CHR 0x0A]) = s \<and>
     trimTrailingNewline (s @ [CHR 0x0A, CHR 0x0A]) = s @ [CHR 0x0A] \<and>
     (s = [] \<or> last s \<noteq> CHR 0x0A \<longrightarrow> trimTrailingNewline s = s)"
proof -
  from module_registry [of StringToNumber] obtain reg where reg:
    "summarizeTokens (parseMarkdown_declarations StringToNumber) = Inr reg"
    "reg ''code_block'' = Some (Bound (parseCodeBlock ''CodeBlock''))"
    "reg ''fence'' = Some (Bound (parseCodeBlock ''CodeBlock''))"
    by blast
  let ?st1 = "openNode st ''CodeBlock'' None"
  have s1: "stack ?st1 = \<lparr>ftype = ''CodeBlock'', fattrs = None, fcontent = []\<rparr> # g # rest"
    using assms(2) by (simp add: openNode_def)
  have "parseCodeBlock ''CodeBlock'' st t =
       Inr (st\<lparr>stack :=
              g\<lparr>fcontent := fcontent g @
                 [createAutoFill (schema st) ''CodeBlock'' None
                    (Some [Text (trimTrailingNewline (tok_content t)) (marks st)]) []]\<rparr> # rest,
              marks := []\<rparr>)"
    unfolding parseCodeBlock_def
    by (simp add: addText_Cons [OF s1] closeNode_Cons frame_node_def ends_with_run_def
        del: addText.simps) (simp add: openNode_def)
  moreover have "trimTrailingNewline (s @ [CHR 0x0A, CHR 0x0A]) = s @ [CHR 0x0A]"
    using trimTrailingNewline_snoc [of "s @ [CHR 0x0A]"] by simp
  ultimately show ?thesis
    using assms(1) reg by (auto simp: trimTrailingNewline_snoc trimTrailingNewline_other)
qed

text \<open>
  C10. The frame opened by a \<^verbatim>\<open>heading_open\<close> token has the attribute \<open>level\<close>, which
  is the string of the token's tag without its first character; it is a string value,
  not a number.
\<close>

theorem heading_level_is_tag_tail:
  assumes "tok_type t = ''heading_open''"
  shows "\<exists>reg. summarizeTokens (parseMarkdown_declarations StringToNumber) = Inr reg \<and>
     parseTokens reg [t] st =
       Inr (st\<lparr>stack :=
              \<lparr>ftype = ''Heading'', fattrs = Some [(''level'', JStr (drop 1 (tok_tag t)))],
               fcontent = []\<rparr> # stack st\<rparr>)"
proof -
  from module_registry [of StringToNumber] obtain reg where
    "summarizeTokens (parseMarkdown_declarations StringToNumber) = Inr reg"
    "reg ''heading_open'' = Some (BlockOpen ''Heading'' (AttrsFunction Heading_attrs))"
    by blast
  with assms show ?thesis
    by (simp add: openNode_def Heading_attrs_def)
qed


theorem ordered_list_order_witness:
  "\<exists>reg. summarizeTokens (parseMarkdown_declarations no_numerals) = Inr reg \<and>
     parseTokens reg [Token ''ordered_list_open'' (Some [(''order'', JNum (Finite 3))]) [] None
                        ''ol'' []] open_em_state =
       Inr (open_em_state
              \<lparr>stack := \<lparr>ftype = ''OrderedList'',
                          fattrs = Some [(''order'', JNum (Finite 3))],
                          fcontent = []\<rparr> # stack open_em_state\<rparr>)"
proof -
  have h: "tok_type (Token ''ordered_list_open'' (Some [(''order'', JNum (Finite 3))]) [] None
             ''ol'' []) = ''ordered_list_open''"
    by simp
  show ?thesis
    using ordered_list_order [OF h, of no_numerals open_em_state]
    by (simp add: getAttr_def)
qed

text \<open>
  C8 (as stated) fails: the numeric attribute 0 is present, and the order is 1, not 0;
  the attribute \<^verbatim>\<open>"abc"\<close> is not numeric, and the order is NaN, not 1.
\<close>

theorem ordered_list_order_counterexample:
  "fromMarkdown record_schema None (parseMarkdown_declarations no_numerals)
     [Token ''ordered_list_open'' (Some [(''order'', JNum (Finite 0))]) [] None ''ol'' []] =
   Inr (Node ''doc'' None
          [Node ''OrderedList'' (Some [(''order'', JNum (Finite 1))]) [] []] []) \<and>
   fromMarkdown record_schema None (parseMarkdown_declarations no_numerals)
     [Token ''ordered_list_open'' (Some [(''order'', JStr ''abc'')]) [] None ''ol'' []] =
   Inr (Node ''doc'' None
          [Node ''OrderedList'' (Some [(''order'', JNum NaN)]) [] []] [])"
  by (simp add: fromMarkdown_def MarkdownParseState_def tokenTypeInfo_def summarizeTokens_def
      parseMarkdown_declarations_def registerTokens_def openNode_def OrderedList_attrs_def
      getAttr_def js_or_def no_numerals_def noMarks_def close_loop.simps closeNode_def
      addNode_def record_schema_def Let_def)

theorem code_block_trims_one_newline_witness:
  "\<exists>reg. summarizeTokens (parseMarkdown_declarations no_numerals) = Inr reg \<and>
     parseTokens reg [Token ''fence'' None (''x'' @ [CHR 0x0A, CHR 0x0A]) None ''code'' []]
       open_em_state =
       Inr (open_em_state
              \<lparr>stack := [\<lparr>ftype = ''Paragraph'', fattrs = None,
                           fcontent = [Node ''CodeBlock'' None
                             [Text (''x'' @ [CHR 0x0A]) [Mark ''EmMark'' None]] []]\<rparr>,
                         \<lparr>ftype = ''doc'', fattrs = None, fcontent = []\<rparr>],
               marks := []\<rparr>)"
proof -
  have h1: "tok_type (Token ''fence'' None (''x'' @ [CHR 0x0A, CHR 0x0A]) None ''code'' []) =
              ''code_block'' \<or>
            tok_type (Token ''fence'' None (''x'' @ [CHR 0x0A, CHR 0x0A]) None ''code'' []) =
              ''fence''"
    by simp
  have h2: "stack open_em_state =
      \<lparr>ftype = ''Paragraph'', fattrs = None, fcontent = []\<rparr> #
      [\<lparr>ftype = ''doc'', fattrs = None, fcontent = []\<rparr>]"
    by (simp add: open_em_state_def)
  show ?thesis
    using code_block_trims_one_newline [OF h1 h2, of no_numerals "''x''"]
    by (simp add: open_em_state_def record_schema_def trimTrailingNewline_def)
qed

theorem heading_level_is_tag_tail_witness:
  "\<exists>reg. summarizeTokens (parseMarkdown_declarations no_numerals) = Inr reg \<and>
     parseTokens reg [Token ''heading_open'' None [] None ''h2'' []] open_em_state =
       Inr (open_em_state
              \<lparr>stack := \<lparr>ftype = ''Heading'', fattrs = Some [(''level'', JStr ''2'')],
                          fcontent = []\<rparr> # stack open_em_state\<rparr>)"
proof -
  have h: "tok_type (Token ''heading_open'' None [] None ''h2'' []) = ''heading_open''"
    by simp
  show ?thesis
    using heading_level_is_tag_tail [OF h, of no_numerals open_em_state]
    by simp
qed

end
